theory Spec2Isabelle
  imports Main "HOL-Library.Word"
begin

unbundle bit_operations_syntax

section \<open>Qrypto::Cipher (qryptocipher.h)\<close>

subsection \<open>Strings and byte arrays\<close>

text \<open>
  A \<open>QString\<close> is modelled over the Latin-1 range as a \<^typ>\<open>string\<close>, a
  \<open>QByteArray\<close> as a list of 8-bit words. On that range \<open>QString::toLatin1\<close> maps
  every character to the byte of its code point.
\<close>

type_synonym QString = string
type_synonym QByteArray = "8 word list"

definition toLatin1 :: "QString \<Rightarrow> QByteArray" where
  "toLatin1 s = map (\<lambda>c. of_nat (of_char c)) s"

text \<open>
  \<open>QString::compare(other, Qt::CaseInsensitive)\<close> compares the case-folded code points.
  Within Latin-1 the folding moves \<open>A..Z\<close> and \<open>0xC0..0xDE\<close> (without the
  multiplication sign \<open>0xD7\<close>) up by 32 and leaves every other code point distinct
  from all others. Only the test \<open>== 0\<close> of the comparison is used by the class.
\<close>

definition foldCase :: "char \<Rightarrow> nat" where
  "foldCase c =
     (let n = of_char c
      in if (65 \<le> n \<and> n \<le> 90) \<or> (192 \<le> n \<and> n \<le> 222 \<and> n \<noteq> 215)
         then n + 32 else n)"

definition compareCI_eq :: "QString \<Rightarrow> QString \<Rightarrow> bool" where
  "compareCI_eq a b = (map foldCase a = map foldCase b)"

text \<open>\<open>QStringList::contains(str, Qt::CaseInsensitive)\<close>: the first match answers.\<close>

fun containsCI :: "QString list \<Rightarrow> QString \<Rightarrow> bool" where
  "containsCI [] s = False"
| "containsCI (n # ns) s = (if compareCI_eq n s then True else containsCI ns s)"

text \<open>
  \<open>QString::split(sep)\<close> with the default \<open>KeepEmptyParts\<close>: one segment more than
  there are separators, empty segments kept.
\<close>

fun split :: "char \<Rightarrow> QString \<Rightarrow> QString list" where
  "split sep [] = [] # []"
| "split sep (x # xs) =
     (if x = sep then [] # split sep xs
      else (case split sep xs of
              [] \<Rightarrow> [x] # []
            | y # ys \<Rightarrow> (x # y) # ys))"

text \<open>
  \<open>QByteArray::fromHex\<close> (Qt): the input is read from its last byte to its first;
  a byte that is no hexadecimal digit is skipped; the digits fill the result from the
  back, low nibble first, so a digit left alone at the front becomes a byte of its own.
  \<open>fromHexDigit\<close> is \<open>QtMiscUtils::fromHex\<close>, with \<open>None\<close> for its \<open>-1\<close>.
\<close>

definition fromHexDigit :: "8 word \<Rightarrow> 8 word option" where
  "fromHexDigit c =
     (if 48 \<le> c \<and> c \<le> 57 then Some (c - 48)
      else if 65 \<le> c \<and> c \<le> 70 then Some (c - 65 + 10)
      else if 97 \<le> c \<and> c \<le> 102 then Some (c - 97 + 10)
      else None)"

text \<open>
  The loop of \<open>fromHex\<close> over the bytes still to read (last byte first), the flag
  \<open>odd_digit\<close> and the bytes written so far. The flag is false only right after a low
  nibble was written, so the written part is not empty there.
\<close>

fun fromHex_loop :: "8 word list \<Rightarrow> bool \<Rightarrow> QByteArray \<Rightarrow> QByteArray" where
  "fromHex_loop [] odd_digit res = res"
| "fromHex_loop (ch # rest) odd_digit res =
     (case fromHexDigit ch of
        None \<Rightarrow> fromHex_loop rest odd_digit res
      | Some tmp \<Rightarrow>
          if odd_digit then fromHex_loop rest False (tmp # res)
          else (case res of
                  [] \<Rightarrow> fromHex_loop rest True []
                | r # rs \<Rightarrow> fromHex_loop rest True ((r OR push_bit 4 tmp) # rs)))"

definition fromHex :: "QByteArray \<Rightarrow> QByteArray" where
  "fromHex hexEncoded = fromHex_loop (rev hexEncoded) True []"

subsection \<open>The enumerations and the name tables\<close>

datatype Algorithm =
  AES | Blowfish | CAST_128 | Camellia | DES_EDE3 | IDEA | SEED | Serpent | Twofish
  | UnknownAlgorithm

datatype Operation =
  CBC | CFB | CTR | EAX | ECB | GCM | OFB | UnknownOperation

text \<open>The value of an enumerator, and the cast \<open>Algorithm(i)\<close> of an index.\<close>

primrec Algorithm_index :: "Algorithm \<Rightarrow> nat" where
  "Algorithm_index AES = 0"
| "Algorithm_index Blowfish = 1"
| "Algorithm_index CAST_128 = 2"
| "Algorithm_index Camellia = 3"
| "Algorithm_index DES_EDE3 = 4"
| "Algorithm_index IDEA = 5"
| "Algorithm_index SEED = 6"
| "Algorithm_index Serpent = 7"
| "Algorithm_index Twofish = 8"
| "Algorithm_index UnknownAlgorithm = 9"

definition Algorithm_of :: "nat \<Rightarrow> Algorithm" where
  "Algorithm_of i =
     (if i = 0 then AES else if i = 1 then Blowfish else if i = 2 then CAST_128
      else if i = 3 then Camellia else if i = 4 then DES_EDE3 else if i = 5 then IDEA
      else if i = 6 then SEED else if i = 7 then Serpent else if i = 8 then Twofish
      else UnknownAlgorithm)"

primrec Operation_index :: "Operation \<Rightarrow> nat" where
  "Operation_index CBC = 0"
| "Operation_index CFB = 1"
| "Operation_index CTR = 2"
| "Operation_index EAX = 3"
| "Operation_index ECB = 4"
| "Operation_index GCM = 5"
| "Operation_index OFB = 6"
| "Operation_index UnknownOperation = 7"

definition Operation_of :: "nat \<Rightarrow> Operation" where
  "Operation_of i =
     (if i = 0 then CBC else if i = 1 then CFB else if i = 2 then CTR
      else if i = 3 then EAX else if i = 4 then ECB else if i = 5 then GCM
      else if i = 6 then OFB else UnknownOperation)"

text \<open>
  Modelled from the spec: the initialisers of the static tables
  \<open>Cipher::AlgorithmNames\<close> and \<open>Cipher::OperationCodes\<close> are not in the header.
  The spec lists the names in the order of the enumerators, with no entry for the
  unknown value.
\<close>

definition AlgorithmNames :: "QString list" where
  "AlgorithmNames =
     [''AES'', ''Blowfish'', ''CAST-128'', ''Camellia'', ''DES-EDE3'', ''IDEA'', ''SEED'',
      ''Serpent'', ''Twofish'']"

definition OperationCodes :: "QString list" where
  "OperationCodes = [''CBC'', ''CFB'', ''CTR'', ''EAX'', ''ECB'', ''GCM'', ''OFB'']"

subsection \<open>The class\<close>

record Cipher =
  m_algorithmName :: QString
  m_operationCode :: QString
  m_authentication :: QByteArray
  m_initialVector :: QByteArray

text \<open>
  \<open>QList::at(i)\<close> asserts that the index is in range; the failed assertion is the
  value \<open>None\<close>.
\<close>

definition at :: "'a list \<Rightarrow> nat \<Rightarrow> 'a option" where
  "at xs i = (if i < length xs then Some (xs ! i) else None)"

text \<open>The constructor; the byte arrays start empty.\<close>

definition Cipher_new :: "Algorithm \<Rightarrow> Operation \<Rightarrow> Cipher option" where
  "Cipher_new algorithm operation =
     (case at AlgorithmNames (Algorithm_index algorithm) of
        None \<Rightarrow> None
      | Some a \<Rightarrow>
          (case at OperationCodes (Operation_index operation) of
             None \<Rightarrow> None
           | Some p \<Rightarrow>
               Some \<lparr>m_algorithmName = a, m_operationCode = p,
                     m_authentication = [], m_initialVector = []\<rparr>))"

text \<open>
  The loop \<open>for (int i = names.size(); i-- > 0; )\<close> of \<open>algorithm()\<close> and
  \<open>operation()\<close>: the last entry that compares equal answers.
\<close>

fun lookupCI :: "nat \<Rightarrow> QString list \<Rightarrow> QString \<Rightarrow> nat option" where
  "lookupCI 0 names s = None"
| "lookupCI (Suc i) names s =
     (if compareCI_eq (names ! i) s then Some i else lookupCI i names s)"

definition algorithm :: "Cipher \<Rightarrow> Algorithm" where
  "algorithm c =
     (case lookupCI (length AlgorithmNames) AlgorithmNames (m_algorithmName c) of
        Some i \<Rightarrow> Algorithm_of i
      | None \<Rightarrow> UnknownAlgorithm)"

definition setAlgorithm :: "Algorithm \<Rightarrow> Cipher \<Rightarrow> Cipher option" where
  "setAlgorithm a c =
     (case at AlgorithmNames (Algorithm_index a) of
        None \<Rightarrow> None
      | Some n \<Rightarrow> Some (c\<lparr>m_algorithmName := n\<rparr>))"

definition algorithmName :: "Cipher \<Rightarrow> QString" where
  "algorithmName c = m_algorithmName c"

definition setAlgorithmName :: "QString \<Rightarrow> Cipher \<Rightarrow> Cipher" where
  "setAlgorithmName name c =
     (if containsCI AlgorithmNames name then c\<lparr>m_algorithmName := name\<rparr>
      else c\<lparr>m_algorithmName := []\<rparr>)"

definition authentication :: "Cipher \<Rightarrow> QByteArray" where
  "authentication c = m_authentication c"

definition setAuthentication :: "QByteArray \<Rightarrow> Cipher \<Rightarrow> Cipher" where
  "setAuthentication a c = c\<lparr>m_authentication := a\<rparr>"

definition setAuthenticationHex :: "QString \<Rightarrow> Cipher \<Rightarrow> Cipher" where
  "setAuthenticationHex authenticationHex c =
     setAuthentication (fromHex (toLatin1 authenticationHex)) c"

definition initialVector :: "Cipher \<Rightarrow> QByteArray" where
  "initialVector c = m_initialVector c"

definition setInitialVector :: "QByteArray \<Rightarrow> Cipher \<Rightarrow> Cipher" where
  "setInitialVector iv c = c\<lparr>m_initialVector := iv\<rparr>"

definition setInitialVectorHex :: "QString \<Rightarrow> Cipher \<Rightarrow> Cipher" where
  "setInitialVectorHex initialVectorHex c =
     setInitialVector (fromHex (toLatin1 initialVectorHex)) c"

definition operation :: "Cipher \<Rightarrow> Operation" where
  "operation c =
     (case lookupCI (length OperationCodes) OperationCodes (m_operationCode c) of
        Some i \<Rightarrow> Operation_of i
      | None \<Rightarrow> UnknownOperation)"

definition setOperation :: "Operation \<Rightarrow> Cipher \<Rightarrow> Cipher option" where
  "setOperation p c =
     (case at OperationCodes (Operation_index p) of
        None \<Rightarrow> None
      | Some n \<Rightarrow> Some (c\<lparr>m_operationCode := n\<rparr>))"

definition operationCode :: "Cipher \<Rightarrow> QString" where
  "operationCode c = m_operationCode c"

definition setOperationCode :: "QString \<Rightarrow> Cipher \<Rightarrow> Cipher" where
  "setOperationCode code c =
     (if containsCI OperationCodes code then c\<lparr>m_operationCode := code\<rparr>
      else c\<lparr>m_operationCode := []\<rparr>)"

text \<open>\<open>QString("%1/%2").arg(a, b)\<close> replaces both markers in one pass.\<close>

definition fullName :: "Cipher \<Rightarrow> QString" where
  "fullName c = algorithmName c @ ''/'' @ operationCode c"

text \<open>
  The loop of \<open>setFullName\<close> runs while the list has exactly two entries;
  \<open>takeFirst\<close> and \<open>takeLast\<close> remove the entries they return.
\<close>

function setFullName_loop :: "QString list \<Rightarrow> Cipher \<Rightarrow> Cipher" where
  "setFullName_loop names c =
     (if length names = 2
      then (let first = hd names; names1 = tl names;
                c1 = setAlgorithmName first c;
                lst = last names1; names2 = butlast names1;
                c2 = setOperationCode lst c1
            in setFullName_loop names2 c2)
      else c)"
  by pat_completeness auto
termination
  by (relation "measure (\<lambda>(names, c). length names)") auto

definition setFullName :: "QString \<Rightarrow> Cipher \<Rightarrow> Cipher" where
  "setFullName name c =
     setFullName_loop (split (CHR ''/'') name)
       (c\<lparr>m_algorithmName := [], m_operationCode := []\<rparr>)"

text \<open>The suite that the constructor's default arguments \<open>AES\<close> and \<open>GCM\<close> build.\<close>

definition defaultCipher :: Cipher where
  "defaultCipher =
     \<lparr>m_algorithmName = ''AES'', m_operationCode = ''GCM'',
      m_authentication = [], m_initialVector = []\<rparr>"

subsection \<open>Key lengths\<close>

text \<open>
  Modelled from the spec: the body of \<open>Cipher::validateKeyLength\<close> and the key lengths
  of the algorithms are not in the header. The spec gives three shapes of valid sets (one
  fixed length, a discrete set, a range) and the policy for each: the fixed length
  whatever the request, the closest permitted value with a tie going to the larger one,
  the request clamped into the range. A discrete set has a first element, so it is never
  empty. Lengths are counted in bytes.
\<close>

datatype KeyLengths = Fixed nat | Discrete nat "nat list" | Range nat nat

text \<open>Modelled from the spec: the lengths that a valid set permits.\<close>

primrec validLengths :: "KeyLengths \<Rightarrow> nat set" where
  "validLengths (Fixed n) = {n}"
| "validLengths (Discrete v vs) = set (v # vs)"
| "validLengths (Range lo hi) = {lo..hi}"

text \<open>Modelled from the spec: a range runs from its lower to its upper end.\<close>

primrec wellFormed :: "KeyLengths \<Rightarrow> bool" where
  "wellFormed (Fixed n) = True"
| "wellFormed (Discrete v vs) = True"
| "wellFormed (Range lo hi) = (lo \<le> hi)"

text \<open>Modelled from the spec: how far a permitted length is from the request.\<close>

definition distance :: "nat \<Rightarrow> nat \<Rightarrow> nat" where
  "distance a b = (if a \<le> b then b - a else a - b)"

text \<open>
  Modelled from the spec: the choice between the best length so far and the next one;
  the closer one wins, and of two equally close ones the larger.
\<close>

definition closer :: "nat \<Rightarrow> nat \<Rightarrow> nat \<Rightarrow> nat" where
  "closer x best v =
     (if distance x v < distance x best \<or> (distance x v = distance x best \<and> best < v)
      then v else best)"

text \<open>Modelled from the spec: the policy for each shape of valid set.\<close>

primrec nearestLength :: "KeyLengths \<Rightarrow> nat \<Rightarrow> nat" where
  "nearestLength (Fixed n) x = n"
| "nearestLength (Discrete v vs) x = foldl (closer x) v vs"
| "nearestLength (Range lo hi) x = (if x < lo then lo else if hi < x then hi else x)"

text \<open>
  Modelled from the spec: the valid key lengths that the spec states (AES, DES-EDE3,
  Blowfish); for the algorithms it is silent about, the table \<open>others\<close> is a parameter.
\<close>

definition keyLengths :: "(Algorithm \<Rightarrow> KeyLengths) \<Rightarrow> Algorithm \<Rightarrow> KeyLengths" where
  "keyLengths others a =
     (if a = AES then Discrete 16 [24, 32]
      else if a = DES_EDE3 then Fixed 24
      else if a = Blowfish then Range 4 56
      else others a)"

text \<open>
  Modelled from the spec: \<open>validateKeyLength\<close> applies the policy to the valid set of
  the algorithm that the suite resolves to. Its body is not in the header.
\<close>

definition validateKeyLength :: "(Algorithm \<Rightarrow> KeyLengths) \<Rightarrow> nat \<Rightarrow> Cipher \<Rightarrow> nat" where
  "validateKeyLength others keyLength c =
     nearestLength (keyLengths others (algorithm c)) keyLength"

subsection \<open>The engine\<close>

text \<open>
  Modelled from the spec: \<open>qrypto.h\<close> with the type \<open>Error\<close> is not among the sources;
  the values are the spec's error taxonomy, with \<open>NoError\<close> for success.
\<close>

datatype Error =
  NoError | ConfigurationError | KeyDerivationError | AuthenticationError
  | EncryptFailed | DecryptFailed

text \<open>
  Modelled from the spec: the collaborators that the spec keeps outside the class
  (\<open>qryptokeymaker.h\<close> and the cipher libraries are not among the sources), as
  parameters of the engine:
  the KeyMaker (its preferred key length, and the derivation of \<open>n\<close> bytes, which may
  fail), the random generator (the bytes it hands out in this call), the length of the
  initial vector that an operation needs, the cipher primitives and the message
  authentication code over the initial vector and the ciphertext. The encrypting
  primitive returns the ciphertext and, in an authenticated mode, the tag; the
  authenticated decrypting primitive checks the tag itself.
\<close>

record Collaborators =
  preferredKeyLength :: nat
  deriveKey :: "nat \<Rightarrow> QByteArray option"
  randomBytes :: "nat \<Rightarrow> QByteArray"
  ivLength :: "Algorithm \<Rightarrow> Operation \<Rightarrow> nat"
  otherKeyLengths :: "Algorithm \<Rightarrow> KeyLengths"
  encipher ::
    "Algorithm \<Rightarrow> Operation \<Rightarrow> QByteArray \<Rightarrow> QByteArray \<Rightarrow> QByteArray
      \<Rightarrow> (QByteArray \<times> QByteArray) option"
  decipher ::
    "Algorithm \<Rightarrow> Operation \<Rightarrow> QByteArray \<Rightarrow> QByteArray \<Rightarrow> QByteArray
      \<Rightarrow> QByteArray option"
  decipherAuthenticated ::
    "Algorithm \<Rightarrow> Operation \<Rightarrow> QByteArray \<Rightarrow> QByteArray \<Rightarrow> QByteArray \<Rightarrow> QByteArray
      \<Rightarrow> Error + QByteArray"
  mac :: "QByteArray \<Rightarrow> QByteArray \<Rightarrow> QByteArray \<Rightarrow> QByteArray"

text \<open>
  Modelled from the spec: the cryptographic work of a call, one entry for each use of a
  collaborator, in the order of the spec's steps.
\<close>

datatype Work =
  DeriveKey nat | GenerateIV nat | Encipher | Decipher | ComputeMac

text \<open>
  Modelled from the spec: the two classes of operations; EAX and GCM carry their own
  tag.
\<close>

definition isAuthenticated :: "Operation \<Rightarrow> bool" where
  "isAuthenticated p = (p = EAX \<or> p = GCM)"

text \<open>
  Modelled from the spec: what a call of the engine leaves behind: the returned error,
  the bytes written to the output parameter (\<open>None\<close> when it is left unpopulated),
  the suite after the call and the work done.
\<close>

record Outcome =
  error :: Error
  produced :: "QByteArray option"
  suite :: Cipher
  work :: "Work list"

text \<open>
  Modelled from the spec: the body of \<open>Cipher::encrypt\<close> is not in the header. The steps
  are those of the spec: resolve the configuration, validate the key length, derive the
  key, draw a fresh initial vector (none for ECB) over the stored one, run the primitive,
  then store the tag of an authenticated mode or the code computed over the ciphertext.
  The produced value is the ciphertext, \<open>None\<close> where the call fails.
\<close>

definition encrypt :: "Collaborators \<Rightarrow> QByteArray \<Rightarrow> Cipher \<Rightarrow> Outcome" where
  "encrypt K plain c =
     (let a = algorithm c; p = operation c
      in if a = UnknownAlgorithm \<or> p = UnknownOperation
         then \<lparr>error = ConfigurationError, produced = None, suite = c, work = []\<rparr>
         else
           let keyLen = validateKeyLength (otherKeyLengths K) (preferredKeyLength K) c
           in case deriveKey K keyLen of
                None \<Rightarrow>
                  \<lparr>error = KeyDerivationError, produced = None, suite = c,
                   work = [DeriveKey keyLen]\<rparr>
              | Some key \<Rightarrow>
                  let n = (if p = ECB then 0 else ivLength K a p);
                      iv = randomBytes K n;
                      c1 = c\<lparr>m_initialVector := iv\<rparr>
                  in case encipher K a p key iv plain of
                       None \<Rightarrow>
                         \<lparr>error = EncryptFailed, produced = None, suite = c1,
                          work = [DeriveKey keyLen, GenerateIV n, Encipher]\<rparr>
                     | Some (crypt, tag) \<Rightarrow>
                         if isAuthenticated p
                         then \<lparr>error = NoError, produced = Some crypt,
                               suite = c1\<lparr>m_authentication := tag\<rparr>,
                               work = [DeriveKey keyLen, GenerateIV n, Encipher]\<rparr>
                         else \<lparr>error = NoError, produced = Some crypt,
                               suite = c1\<lparr>m_authentication := mac K key iv crypt\<rparr>,
                               work = [DeriveKey keyLen, GenerateIV n, Encipher, ComputeMac]\<rparr>)"

text \<open>
  Modelled from the spec: the body of \<open>Cipher::decrypt\<close> is not in the header. It uses
  the initial vector and the authentication value stored on the suite. An authenticated
  mode hands the stored tag to the primitive; any other mode recomputes the code over
  the given ciphertext, compares it with the stored value and deciphers only when they
  agree. The produced value is the plaintext, \<open>None\<close> where the call fails.
\<close>

definition decrypt :: "Collaborators \<Rightarrow> QByteArray \<Rightarrow> Cipher \<Rightarrow> Outcome" where
  "decrypt K crypt c =
     (let a = algorithm c; p = operation c
      in if a = UnknownAlgorithm \<or> p = UnknownOperation
         then \<lparr>error = ConfigurationError, produced = None, suite = c, work = []\<rparr>
         else
           let keyLen = validateKeyLength (otherKeyLengths K) (preferredKeyLength K) c
           in case deriveKey K keyLen of
                None \<Rightarrow>
                  \<lparr>error = KeyDerivationError, produced = None, suite = c,
                   work = [DeriveKey keyLen]\<rparr>
              | Some key \<Rightarrow>
                  if isAuthenticated p
                  then (case decipherAuthenticated K a p key (m_initialVector c) crypt
                               (m_authentication c) of
                          Inl e \<Rightarrow>
                            \<lparr>error = e, produced = None, suite = c,
                             work = [DeriveKey keyLen, Decipher]\<rparr>
                        | Inr plain \<Rightarrow>
                            \<lparr>error = NoError, produced = Some plain, suite = c,
                             work = [DeriveKey keyLen, Decipher]\<rparr>)
                  else if mac K key (m_initialVector c) crypt \<noteq> m_authentication c
                  then \<lparr>error = AuthenticationError, produced = None, suite = c,
                        work = [DeriveKey keyLen, ComputeMac]\<rparr>
                  else (case decipher K a p key (m_initialVector c) crypt of
                          None \<Rightarrow>
                            \<lparr>error = DecryptFailed, produced = None, suite = c,
                             work = [DeriveKey keyLen, ComputeMac, Decipher]\<rparr>
                        | Some plain \<Rightarrow>
                            \<lparr>error = NoError, produced = Some plain, suite = c,
                             work = [DeriveKey keyLen, ComputeMac, Decipher]\<rparr>))"

text \<open>
  Modelled from the spec: what the round trip asks of the primitives: deciphering with the key and the initial
  vector of the encryption gives the plaintext back, and the authenticated primitive
  accepts the tag made with its ciphertext.
\<close>

definition primitivesInvert :: "Collaborators \<Rightarrow> bool" where
  "primitivesInvert K =
     (\<forall>a p key iv plain crypt tag.
        encipher K a p key iv plain = Some (crypt, tag) \<longrightarrow>
          (if isAuthenticated p
           then decipherAuthenticated K a p key iv crypt tag = Inr plain
           else decipher K a p key iv crypt = Some plain))"



text \<open>
  Toy collaborators to run the engine on: the key is \<open>n\<close> bytes of \<open>0x2A\<close>, the
  initial vector \<open>n\<close> bytes of \<open>0x07\<close>, the cipher adds the first key byte to every
  byte, the tag and the code are the ciphertext reversed.
\<close>

definition toyCollaborators :: Collaborators where
  "toyCollaborators =
     \<lparr>preferredKeyLength = 20,
      deriveKey = (\<lambda>n. Some (replicate n 42)),
      randomBytes = (\<lambda>n. replicate n 7),
      ivLength = (\<lambda>a p. 16),
      otherKeyLengths = (\<lambda>a. Fixed 16),
      encipher = (\<lambda>a p key iv plain.
         Some (map (\<lambda>b. b + hd key) plain, rev (map (\<lambda>b. b + hd key) plain))),
      decipher = (\<lambda>a p key iv crypt. Some (map (\<lambda>b. b - hd key) crypt)),
      decipherAuthenticated = (\<lambda>a p key iv crypt tag.
         if tag = rev crypt then Inr (map (\<lambda>b. b - hd key) crypt)
         else Inl AuthenticationError),
      mac = (\<lambda>key iv crypt. rev crypt)\<rparr>"

section \<open>Properties of the class\<close>

subsection \<open>Auxiliary facts\<close>

lemma Cipher_new_default: "Cipher_new AES GCM = Some defaultCipher"
  by (simp add: Cipher_new_def at_def AlgorithmNames_def OperationCodes_def defaultCipher_def)

lemma length_split: "length (split sep s) = Suc (length (filter (\<lambda>x. x = sep) s))"
  by (induction s) (auto split: list.splits)

lemma setFullName_loop_two:
  "setFullName_loop [a, p] c = setOperationCode p (setAlgorithmName a c)"
  by (simp add: Let_def)

lemma setFullName_loop_other:
  "length names \<noteq> 2 \<Longrightarrow> setFullName_loop names c = c"
  by simp

lemma length_fromHex_loop:
  "(\<not> odd_digit \<longrightarrow> res \<noteq> []) \<Longrightarrow>
   length (fromHex_loop xs odd_digit res) =
     (if odd_digit then length res + (length (filter (\<lambda>b. fromHexDigit b \<noteq> None) xs) + 1) div 2
      else length res + length (filter (\<lambda>b. fromHexDigit b \<noteq> None) xs) div 2)"
proof (induction xs arbitrary: odd_digit res)
  case Nil
  then show ?case by simp
next
  case (Cons ch rest)
  show ?case
  proof (cases "fromHexDigit ch")
    case None
    with Cons show ?thesis by simp
  next
    case (Some tmp)
    show ?thesis
    proof (cases odd_digit)
      case True
      with Some Cons.IH [of False "tmp # res"] show ?thesis by simp
    next
      case False
      with Cons.prems obtain r rs where res: "res = r # rs" by (cases res) auto
      with False Some Cons.IH [of True "(r OR push_bit 4 tmp) # rs"] show ?thesis by simp
    qed
  qed
qed

lemma length_fromHex:
  "length (fromHex bs) = (length (filter (\<lambda>b. fromHexDigit b \<noteq> None) bs) + 1) div 2"
  using length_fromHex_loop [of True "[]" "rev bs"]
  by (simp add: fromHex_def flip: rev_filter)

lemma containsCI_iff: "containsCI names s \<longleftrightarrow> (\<exists>j < length names. compareCI_eq (names ! j) s)"
proof (induction names)
  case Nil
  then show ?case by simp
next
  case (Cons n ns)
  show ?case
  proof (cases "compareCI_eq n s")
    case True
    then have "compareCI_eq ((n # ns) ! 0) s" by simp
    then show ?thesis using True by auto
  next
    case False
    then show ?thesis using Cons.IH
      by (auto simp: less_Suc_eq_0_disj)
  qed
qed

lemma lookupCI_None:
  "lookupCI i names s = None \<longleftrightarrow> (\<forall>j < i. \<not> compareCI_eq (names ! j) s)"
  by (induction i) (auto simp: less_Suc_eq)

lemma lookupCI_Some:
  "lookupCI i names s = Some j \<Longrightarrow> j < i \<and> compareCI_eq (names ! j) s"
  by (induction i) (auto split: if_splits)

lemma lookupCI_contains:
  assumes "containsCI names s"
  shows "\<exists>j < length names. lookupCI (length names) names s = Some j \<and> compareCI_eq (names ! j) s"
proof -
  from assms have "lookupCI (length names) names s \<noteq> None"
    by (simp add: lookupCI_None containsCI_iff)
  then obtain j where "lookupCI (length names) names s = Some j" by auto
  with lookupCI_Some [of "length names" names s j] show ?thesis by simp
qed

lemma containsCI_cong:
  "compareCI_eq a b \<Longrightarrow> containsCI names a = containsCI names b"
  by (induction names) (auto simp: compareCI_eq_def)

lemma lookupCI_cong:
  "compareCI_eq a b \<Longrightarrow> lookupCI i names a = lookupCI i names b"
  by (induction i) (auto simp: compareCI_eq_def)

lemma lookupCI_empty_AlgorithmNames:
  "lookupCI (length AlgorithmNames) AlgorithmNames [] = None"
  by (simp add: AlgorithmNames_def compareCI_eq_def eval_nat_numeral)

lemma lookupCI_empty_OperationCodes:
  "lookupCI (length OperationCodes) OperationCodes [] = None"
  by (simp add: OperationCodes_def compareCI_eq_def eval_nat_numeral)

lemma Algorithm_index_of: "i < length AlgorithmNames \<Longrightarrow> Algorithm_index (Algorithm_of i) = i"
  by (simp add: AlgorithmNames_def Algorithm_of_def)

lemma Operation_index_of: "i < length OperationCodes \<Longrightarrow> Operation_index (Operation_of i) = i"
  by (simp add: OperationCodes_def Operation_of_def)

lemma Algorithm_of_known: "i < length AlgorithmNames \<Longrightarrow> Algorithm_of i \<noteq> UnknownAlgorithm"
  by (simp add: AlgorithmNames_def Algorithm_of_def)

lemma Operation_of_known: "i < length OperationCodes \<Longrightarrow> Operation_of i \<noteq> UnknownOperation"
  by (simp add: OperationCodes_def Operation_of_def)

lemma setAlgorithmName_resolves:
  assumes "containsCI AlgorithmNames a"
  shows "algorithmName (setAlgorithmName a c) = a"
    and "algorithm (setAlgorithmName a c) \<noteq> UnknownAlgorithm"
    and "\<exists>n. at AlgorithmNames (Algorithm_index (algorithm (setAlgorithmName a c))) = Some n
             \<and> compareCI_eq n a"
proof -
  from lookupCI_contains [OF assms] obtain j where j: "j < length AlgorithmNames"
    "lookupCI (length AlgorithmNames) AlgorithmNames a = Some j"
    "compareCI_eq (AlgorithmNames ! j) a" by blast
  show "algorithmName (setAlgorithmName a c) = a"
    using assms by (simp add: algorithmName_def setAlgorithmName_def)
  have alg: "algorithm (setAlgorithmName a c) = Algorithm_of j"
    using assms j(2) by (simp add: algorithm_def setAlgorithmName_def)
  show "algorithm (setAlgorithmName a c) \<noteq> UnknownAlgorithm"
    using alg Algorithm_of_known [OF j(1)] by simp
  show "\<exists>n. at AlgorithmNames (Algorithm_index (algorithm (setAlgorithmName a c))) = Some n
             \<and> compareCI_eq n a"
    using alg j(1) j(3) Algorithm_index_of [OF j(1)] by (simp add: at_def)
qed

lemma setOperationCode_resolves:
  assumes "containsCI OperationCodes p"
  shows "operationCode (setOperationCode p c) = p"
    and "operation (setOperationCode p c) \<noteq> UnknownOperation"
    and "\<exists>n. at OperationCodes (Operation_index (operation (setOperationCode p c))) = Some n
             \<and> compareCI_eq n p"
proof -
  from lookupCI_contains [OF assms] obtain j where j: "j < length OperationCodes"
    "lookupCI (length OperationCodes) OperationCodes p = Some j"
    "compareCI_eq (OperationCodes ! j) p" by blast
  show "operationCode (setOperationCode p c) = p"
    using assms by (simp add: operationCode_def setOperationCode_def)
  have op: "operation (setOperationCode p c) = Operation_of j"
    using assms j(2) by (simp add: operation_def setOperationCode_def)
  show "operation (setOperationCode p c) \<noteq> UnknownOperation"
    using op Operation_of_known [OF j(1)] by simp
  show "\<exists>n. at OperationCodes (Operation_index (operation (setOperationCode p c))) = Some n
             \<and> compareCI_eq n p"
    using op j(1) j(3) Operation_index_of [OF j(1)] by (simp add: at_def)
qed

lemma setAlgorithmName_frame:
  "m_operationCode (setAlgorithmName a c) = m_operationCode c"
  "m_initialVector (setAlgorithmName a c) = m_initialVector c"
  "m_authentication (setAlgorithmName a c) = m_authentication c"
  by (simp_all add: setAlgorithmName_def)

lemma setOperationCode_frame:
  "m_algorithmName (setOperationCode p c) = m_algorithmName c"
  "m_initialVector (setOperationCode p c) = m_initialVector c"
  "m_authentication (setOperationCode p c) = m_authentication c"
  by (simp_all add: setOperationCode_def)

text \<open>
  Claim C8, as amended. The string setters accept a name in any casing: a string that
  compares equal, case-insensitively, to an accepted one is accepted too and resolves to
  the same enumerator. After a successful set the getters \<open>algorithmName()\<close>,
  \<open>operationCode()\<close> and \<open>fullName()\<close> return the string exactly as it was given;
  \<open>algorithm()\<close> and \<open>operation()\<close> resolve it to the registry entry that it equals
  up to case.
\<close>

theorem setters_store_input_spelling:
  assumes "containsCI AlgorithmNames a" and "containsCI OperationCodes p"
    and "compareCI_eq a a'" and "compareCI_eq p p'"
  shows "algorithmName (setAlgorithmName a c) = a
       \<and> operationCode (setOperationCode p c) = p
       \<and> fullName (setOperationCode p (setAlgorithmName a c)) = a @ ''/'' @ p
       \<and> (\<exists>n. at AlgorithmNames (Algorithm_index (algorithm (setAlgorithmName a c))) = Some n
               \<and> compareCI_eq n a)
       \<and> (\<exists>n. at OperationCodes (Operation_index (operation (setOperationCode p c))) = Some n
               \<and> compareCI_eq n p)
       \<and> containsCI AlgorithmNames a' \<and> containsCI OperationCodes p'
       \<and> algorithm (setAlgorithmName a' c) = algorithm (setAlgorithmName a c)
       \<and> operation (setOperationCode p' c) = operation (setOperationCode p c)"
proof -
  have a': "containsCI AlgorithmNames a'"
    using assms(1,3) containsCI_cong by blast
  have p': "containsCI OperationCodes p'"
    using assms(2,4) containsCI_cong by blast
  have full: "fullName (setOperationCode p (setAlgorithmName a c)) = a @ ''/'' @ p"
    using assms(1,2)
    by (simp add: fullName_def algorithmName_def operationCode_def
        setOperationCode_def setAlgorithmName_def)
  have alg: "algorithm (setAlgorithmName a' c) = algorithm (setAlgorithmName a c)"
    using assms(1) a' lookupCI_cong [OF assms(3)]
    by (simp add: algorithm_def setAlgorithmName_def)
  have op: "operation (setOperationCode p' c) = operation (setOperationCode p c)"
    using assms(2) p' lookupCI_cong [OF assms(4)]
    by (simp add: operation_def setOperationCode_def)
  show ?thesis
    using setAlgorithmName_resolves(1,3) [OF assms(1)] setOperationCode_resolves(1,3) [OF assms(2)]
      a' p' full alg op by simp
qed

text \<open>The amended claim at \<open>aes\<close> and \<open>gcm\<close>, recased as \<open>AeS\<close> and \<open>GCM\<close>.\<close>

theorem setters_store_input_spelling_witness:
  "containsCI AlgorithmNames ''aes'' \<and> containsCI OperationCodes ''gcm''
   \<and> compareCI_eq ''aes'' ''AeS'' \<and> compareCI_eq ''gcm'' ''GCM''
   \<and> algorithmName (setAlgorithmName ''aes'' defaultCipher) = ''aes''
   \<and> operationCode (setOperationCode ''gcm'' defaultCipher) = ''gcm''
   \<and> fullName (setOperationCode ''gcm'' (setAlgorithmName ''aes'' defaultCipher)) = ''aes/gcm''
   \<and> algorithm (setAlgorithmName ''AeS'' defaultCipher)
       = algorithm (setAlgorithmName ''aes'' defaultCipher)
   \<and> operation (setOperationCode ''GCM'' defaultCipher)
       = operation (setOperationCode ''gcm'' defaultCipher)"
proof -
  have a: "containsCI AlgorithmNames ''aes''"
    by (simp add: AlgorithmNames_def compareCI_eq_def foldCase_def)
  have p: "containsCI OperationCodes ''gcm''"
    by (simp add: OperationCodes_def compareCI_eq_def foldCase_def)
  have a': "compareCI_eq ''aes'' ''AeS''"
    by (simp add: compareCI_eq_def foldCase_def)
  have p': "compareCI_eq ''gcm'' ''GCM''"
    by (simp add: compareCI_eq_def foldCase_def)
  from setters_store_input_spelling [OF a p a' p', of defaultCipher] a p a' p'
  show ?thesis by simp
qed

text \<open>
  Claim C8 as stated fails: \<open>aes\<close> is accepted and resolves to the entry \<open>AES\<close>, yet
  the getters answer \<open>aes\<close> and \<open>aes/gcm\<close>, not the registry's spelling.
\<close>

theorem setAlgorithmName_not_canonical:
  "containsCI AlgorithmNames ''aes''
   \<and> at AlgorithmNames (Algorithm_index (algorithm (setAlgorithmName ''aes'' defaultCipher))) = Some ''AES''
   \<and> algorithmName (setAlgorithmName ''aes'' defaultCipher) = ''aes''
   \<and> fullName (setOperationCode ''gcm'' (setAlgorithmName ''aes'' defaultCipher)) = ''aes/gcm''"
  by (simp add: AlgorithmNames_def OperationCodes_def compareCI_eq_def foldCase_def
      setAlgorithmName_def setOperationCode_def algorithm_def algorithmName_def operationCode_def
      fullName_def defaultCipher_def Algorithm_of_def at_def)

text \<open>
  Claim C7, as amended. \<open>setFullName\<close> splits at \<open>/\<close>. With exactly two segments,
  that is with exactly one \<open>/\<close> in the string, each half goes through its own setter: a
  recognised half is stored as given, an unrecognised half leaves its own field empty,
  and neither touches the other field. With any other number of segments both fields
  are empty.
\<close>

theorem setFullName_applies_halves:
  "setFullName s c =
     (case split (CHR ''/'') s of
        [a, p] \<Rightarrow>
          setOperationCode p
            (setAlgorithmName a (c\<lparr>m_algorithmName := [], m_operationCode := []\<rparr>))
      | _ \<Rightarrow> c\<lparr>m_algorithmName := [], m_operationCode := []\<rparr>)
   \<and> algorithmName (setFullName s c) =
     (case split (CHR ''/'') s of
        [a, p] \<Rightarrow> if containsCI AlgorithmNames a then a else []
      | _ \<Rightarrow> [])
   \<and> operationCode (setFullName s c) =
     (case split (CHR ''/'') s of
        [a, p] \<Rightarrow> if containsCI OperationCodes p then p else []
      | _ \<Rightarrow> [])
   \<and> (length (split (CHR ''/'') s) = 2) = (length (filter (\<lambda>x. x = CHR ''/'') s) = 1)"
proof -
  let ?c0 = "c\<lparr>m_algorithmName := [], m_operationCode := []\<rparr>"
  have loop: "setFullName_loop names ?c0 =
     (case names of
        [a, p] \<Rightarrow> setOperationCode p (setAlgorithmName a ?c0)
      | _ \<Rightarrow> ?c0)" for names
  proof (cases "length names = 2")
    case True
    then obtain a p where "names = [a, p]"
      by (cases names; cases "tl names"; cases "tl (tl names)") auto
    then show ?thesis by (simp add: setFullName_loop_two)
  next
    case False
    then have "setFullName_loop names ?c0 = ?c0" by (rule setFullName_loop_other)
    with False show ?thesis by (auto split: list.splits)
  qed
  have 1: "setFullName s c =
     (case split (CHR ''/'') s of
        [a, p] \<Rightarrow> setOperationCode p (setAlgorithmName a ?c0)
      | _ \<Rightarrow> ?c0)"
    unfolding setFullName_def by (rule loop)
  have 2: "algorithmName (setFullName s c) =
     (case split (CHR ''/'') s of
        [a, p] \<Rightarrow> if containsCI AlgorithmNames a then a else []
      | _ \<Rightarrow> [])"
    unfolding 1
    by (simp add: algorithmName_def setOperationCode_frame setAlgorithmName_def
        split: list.splits)
  have 3: "operationCode (setFullName s c) =
     (case split (CHR ''/'') s of
        [a, p] \<Rightarrow> if containsCI OperationCodes p then p else []
      | _ \<Rightarrow> [])"
    unfolding 1
    by (simp add: operationCode_def setOperationCode_def setAlgorithmName_frame
        split: list.splits)
  have 4: "(length (split (CHR ''/'') s) = 2) = (length (filter (\<lambda>x. x = CHR ''/'') s) = 1)"
    by (simp add: length_split)
  from 1 2 3 4 show ?thesis by blast
qed

text \<open>
  Claim C7 as stated fails: in \<open>AES/xyz\<close> the second half is not an operation code,
  and the algorithm name is \<open>AES\<close> afterwards, not empty.
\<close>

theorem setFullName_keeps_recognised_half:
  "split (CHR ''/'') ''AES/xyz'' = [''AES'', ''xyz'']
   \<and> \<not> containsCI OperationCodes ''xyz''
   \<and> algorithmName (setFullName ''AES/xyz'' defaultCipher) = ''AES''
   \<and> operationCode (setFullName ''AES/xyz'' defaultCipher) = []"
  by (simp add: setFullName_def Let_def setAlgorithmName_def setOperationCode_def
      AlgorithmNames_def OperationCodes_def compareCI_eq_def foldCase_def
      algorithmName_def operationCode_def defaultCipher_def)

text \<open>
  Claim C9, as amended. For every string the hex variants of \<open>setInitialVector\<close> and
  \<open>setAuthentication\<close> return and store what \<open>QByteArray::fromHex\<close> decodes from
  its Latin-1 bytes: characters that are no hexadecimal digits are skipped, and \<open>d\<close>
  digits give \<open>(d + 1) div 2\<close> bytes. The stored bytes are empty exactly when the
  string holds no hexadecimal digit.
\<close>

theorem hex_setters_store_fromHex:
  "initialVector (setInitialVectorHex s c) = fromHex (toLatin1 s)
   \<and> authentication (setAuthenticationHex s c) = fromHex (toLatin1 s)
   \<and> length (fromHex (toLatin1 s)) =
       (length (filter (\<lambda>b. fromHexDigit b \<noteq> None) (toLatin1 s)) + 1) div 2
   \<and> (fromHex (toLatin1 s) = []) = (filter (\<lambda>b. fromHexDigit b \<noteq> None) (toLatin1 s) = [])"
proof -
  have len: "length (fromHex (toLatin1 s)) =
       (length (filter (\<lambda>b. fromHexDigit b \<noteq> None) (toLatin1 s)) + 1) div 2"
    by (rule length_fromHex)
  have "(length (fromHex (toLatin1 s)) = 0) =
        (length (filter (\<lambda>b. fromHexDigit b \<noteq> None) (toLatin1 s)) = 0)"
    unfolding len by presburger
  then have empty: "(fromHex (toLatin1 s) = []) =
        (filter (\<lambda>b. fromHexDigit b \<noteq> None) (toLatin1 s) = [])"
    by simp
  show ?thesis
    using len empty
    by (simp add: initialVector_def setInitialVectorHex_def setInitialVector_def
        authentication_def setAuthenticationHex_def setAuthentication_def)
qed

text \<open>
  Claim C9 as stated fails: the odd-length \<open>abc\<close> is stored as the two bytes
  \<open>0A BC\<close>, and \<open>zz12\<close> with its two invalid characters as the byte \<open>12\<close>.
\<close>

theorem hex_setters_decode_malformed:
  "initialVector (setInitialVectorHex ''abc'' defaultCipher) = [0x0A, 0xBC]
   \<and> authentication (setAuthenticationHex ''zz12'' defaultCipher) = [0x12]"
  by (simp add: initialVector_def setInitialVectorHex_def setInitialVector_def
      authentication_def setAuthenticationHex_def setAuthentication_def
      fromHex_def toLatin1_def fromHexDigit_def defaultCipher_def)

text \<open>
  Claim C10. Each setter of one field leaves the other fields as they were:
  \<open>setAlgorithm\<close> (which returns for every enumerator but the unknown one) and
  \<open>setAlgorithmName\<close> keep the operation code, the initial vector and the
  authentication value; \<open>setOperation\<close> and \<open>setOperationCode\<close> keep the algorithm
  name, the initial vector and the authentication value; both variants of
  \<open>setInitialVector\<close> keep the names and the authentication value; both variants of
  \<open>setAuthentication\<close> keep the names and the initial vector.
\<close>

theorem setters_frame:
  "(a \<noteq> UnknownAlgorithm \<longrightarrow>
      (\<exists>c'. setAlgorithm a c = Some c' \<and> operationCode c' = operationCode c
            \<and> initialVector c' = initialVector c \<and> authentication c' = authentication c))
   \<and> (operationCode (setAlgorithmName n c) = operationCode c
      \<and> initialVector (setAlgorithmName n c) = initialVector c
      \<and> authentication (setAlgorithmName n c) = authentication c)
   \<and> (p \<noteq> UnknownOperation \<longrightarrow>
      (\<exists>c'. setOperation p c = Some c' \<and> algorithmName c' = algorithmName c
            \<and> initialVector c' = initialVector c \<and> authentication c' = authentication c))
   \<and> (algorithmName (setOperationCode n c) = algorithmName c
      \<and> initialVector (setOperationCode n c) = initialVector c
      \<and> authentication (setOperationCode n c) = authentication c)
   \<and> (algorithmName (setInitialVector iv c) = algorithmName c
      \<and> operationCode (setInitialVector iv c) = operationCode c
      \<and> authentication (setInitialVector iv c) = authentication c)
   \<and> (algorithmName (setInitialVectorHex h c) = algorithmName c
      \<and> operationCode (setInitialVectorHex h c) = operationCode c
      \<and> authentication (setInitialVectorHex h c) = authentication c)
   \<and> (algorithmName (setAuthentication au c) = algorithmName c
      \<and> operationCode (setAuthentication au c) = operationCode c
      \<and> initialVector (setAuthentication au c) = initialVector c)
   \<and> (algorithmName (setAuthenticationHex h c) = algorithmName c
      \<and> operationCode (setAuthenticationHex h c) = operationCode c
      \<and> initialVector (setAuthenticationHex h c) = initialVector c)"
proof -
  have 1: "a \<noteq> UnknownAlgorithm \<longrightarrow>
      (\<exists>c'. setAlgorithm a c = Some c' \<and> operationCode c' = operationCode c
            \<and> initialVector c' = initialVector c \<and> authentication c' = authentication c)"
    by (cases a)
      (simp_all add: setAlgorithm_def at_def AlgorithmNames_def operationCode_def
        initialVector_def authentication_def)
  have 2: "p \<noteq> UnknownOperation \<longrightarrow>
      (\<exists>c'. setOperation p c = Some c' \<and> algorithmName c' = algorithmName c
            \<and> initialVector c' = initialVector c \<and> authentication c' = authentication c)"
    by (cases p)
      (simp_all add: setOperation_def at_def OperationCodes_def algorithmName_def
        initialVector_def authentication_def)
  have 3: "operationCode (setAlgorithmName n c) = operationCode c
      \<and> initialVector (setAlgorithmName n c) = initialVector c
      \<and> authentication (setAlgorithmName n c) = authentication c"
    by (simp add: operationCode_def initialVector_def authentication_def setAlgorithmName_frame)
  have 4: "algorithmName (setOperationCode n c) = algorithmName c
      \<and> initialVector (setOperationCode n c) = initialVector c
      \<and> authentication (setOperationCode n c) = authentication c"
    by (simp add: algorithmName_def initialVector_def authentication_def setOperationCode_frame)
  have 5: "algorithmName (setInitialVector iv c) = algorithmName c
      \<and> operationCode (setInitialVector iv c) = operationCode c
      \<and> authentication (setInitialVector iv c) = authentication c" for iv
    by (simp add: algorithmName_def operationCode_def authentication_def setInitialVector_def)
  have 6: "algorithmName (setAuthentication au c) = algorithmName c
      \<and> operationCode (setAuthentication au c) = operationCode c
      \<and> initialVector (setAuthentication au c) = initialVector c" for au
    by (simp add: algorithmName_def operationCode_def initialVector_def setAuthentication_def)
  show ?thesis
    using 1 2 3 4 5 [of iv] 5 [of "fromHex (toLatin1 h)"] 6 [of au] 6 [of "fromHex (toLatin1 h)"]
    unfolding setInitialVectorHex_def setAuthenticationHex_def
    by blast
qed

text \<open>The frame property at the default suite, for \<open>AES\<close> and \<open>CBC\<close>.\<close>

theorem setters_frame_witness:
  "AES \<noteq> UnknownAlgorithm \<and> CBC \<noteq> UnknownOperation
   \<and> (\<exists>c'. setAlgorithm AES defaultCipher = Some c'
            \<and> operationCode c' = operationCode defaultCipher)
   \<and> (\<exists>c'. setOperation CBC defaultCipher = Some c'
            \<and> algorithmName c' = algorithmName defaultCipher)"
proof -
  have a: "AES \<noteq> UnknownAlgorithm" and p: "CBC \<noteq> UnknownOperation"
    by simp_all
  note frame = setters_frame [of AES defaultCipher "''x''" CBC "[]" "''00''" "[]"]
  from frame a have 1: "\<exists>c'. setAlgorithm AES defaultCipher = Some c'
            \<and> operationCode c' = operationCode defaultCipher"
    by blast
  from frame p have 2: "\<exists>c'. setOperation CBC defaultCipher = Some c'
            \<and> algorithmName c' = algorithmName defaultCipher"
    by blast
  from a p 1 2 show ?thesis by blast
qed

subsection \<open>Key lengths and the engine\<close>

lemma closer_step:
  assumes "best \<in> S"
    and "\<forall>w \<in> S. distance x best \<le> distance x w \<and> (distance x w = distance x best \<longrightarrow> w \<le> best)"
  shows "closer x best v \<in> insert v S \<and>
    (\<forall>w \<in> insert v S. distance x (closer x best v) \<le> distance x w
       \<and> (distance x w = distance x (closer x best v) \<longrightarrow> w \<le> closer x best v))"
proof (cases "distance x v < distance x best \<or> (distance x v = distance x best \<and> best < v)")
  case True
  then have c: "closer x best v = v" by (simp add: closer_def)
  have "distance x v \<le> distance x w \<and> (distance x w = distance x v \<longrightarrow> w \<le> v)"
    if "w \<in> S" for w
  proof -
    from assms(2) that have w: "distance x best \<le> distance x w"
      and t: "distance x w = distance x best \<longrightarrow> w \<le> best" by blast+
    from True w t show ?thesis by auto
  qed
  with c show ?thesis by simp
next
  case False
  then have c: "closer x best v = best" by (simp add: closer_def)
  from False have "distance x best \<le> distance x v"
    and "distance x v = distance x best \<longrightarrow> v \<le> best"
    by auto
  with c assms show ?thesis by simp
qed

lemma foldl_closer:
  assumes "best \<in> S"
    and "\<forall>w \<in> S. distance x best \<le> distance x w \<and> (distance x w = distance x best \<longrightarrow> w \<le> best)"
  shows "foldl (closer x) best vs \<in> S \<union> set vs \<and>
    (\<forall>w \<in> S \<union> set vs. distance x (foldl (closer x) best vs) \<le> distance x w
       \<and> (distance x w = distance x (foldl (closer x) best vs) \<longrightarrow> w \<le> foldl (closer x) best vs))"
  using assms
proof (induction vs arbitrary: best S)
  case Nil
  then show ?case by simp
next
  case (Cons v vs)
  from closer_step [OF Cons.prems]
  have "closer x best v \<in> insert v S" 
    and "\<forall>w \<in> insert v S. distance x (closer x best v) \<le> distance x w
       \<and> (distance x w = distance x (closer x best v) \<longrightarrow> w \<le> closer x best v)"
    by blast+
  from Cons.IH [OF this] show ?case by simp
qed

lemma nearest_discrete:
  "foldl (closer x) v vs \<in> set (v # vs) \<and>
    (\<forall>w \<in> set (v # vs). distance x (foldl (closer x) v vs) \<le> distance x w
       \<and> (distance x w = distance x (foldl (closer x) v vs) \<longrightarrow> w \<le> foldl (closer x) v vs))"
  using foldl_closer [of v "{v}" x vs] by simp

lemma distance_zero: "distance a b = 0 \<longleftrightarrow> a = b"
  by (auto simp: distance_def)

lemma nearestLength_valid:
  "wellFormed ks \<Longrightarrow> nearestLength ks x \<in> validLengths ks"
proof (cases ks)
  case (Discrete v vs)
  then show ?thesis using nearest_discrete [of x v vs] by simp
qed auto

lemma nearestLength_fixpoint:
  "r \<in> validLengths ks \<Longrightarrow> nearestLength ks r = r"
proof (cases ks)
  case (Discrete v vs)
  assume "r \<in> validLengths ks"
  with Discrete have "r \<in> set (v # vs)" by simp
  with nearest_discrete [of r v vs]
  have "distance r (foldl (closer r) v vs) \<le> distance r r" by blast
  then have "distance r (foldl (closer r) v vs) = 0" by (simp add: distance_def)
  then show ?thesis using Discrete by (simp add: distance_zero)
qed auto

text \<open>
  Claim C6. Whatever algorithm is configured and whatever length is requested,
  \<open>validateKeyLength\<close> returns a length of the algorithm's valid set and validating
  its result again changes nothing. A fixed length is returned whatever the request; in
  a discrete set no permitted length is closer to the request than the result, and a
  permitted length just as close is not larger; a request is clamped into a range. With
  \<open>DES_EDE3\<close> configured a request of 10 gives 24. A range is taken to have its lower
  end below its upper end.
\<close>

theorem validateKeyLength_policy:
  assumes "wellFormed (keyLengths others (algorithm c))"
  shows "validateKeyLength others x c \<in> validLengths (keyLengths others (algorithm c))
    \<and> validateKeyLength others (validateKeyLength others x c) c = validateKeyLength others x c
    \<and> (case keyLengths others (algorithm c) of
         Fixed n \<Rightarrow> validateKeyLength others x c = n
       | Discrete v vs \<Rightarrow>
           (\<forall>w \<in> set (v # vs).
              distance x (validateKeyLength others x c) \<le> distance x w
              \<and> (distance x w = distance x (validateKeyLength others x c)
                  \<longrightarrow> w \<le> validateKeyLength others x c))
       | Range lo hi \<Rightarrow> validateKeyLength others x c = max lo (min hi x))
    \<and> (algorithm c = DES_EDE3 \<longrightarrow> validateKeyLength others 10 c = 24)"
proof -
  let ?ks = "keyLengths others (algorithm c)"
  have 1: "nearestLength ?ks x \<in> validLengths ?ks"
    using assms by (rule nearestLength_valid)
  have 2: "nearestLength ?ks (nearestLength ?ks x) = nearestLength ?ks x"
    using 1 by (rule nearestLength_fixpoint)
  have 3: "(case ?ks of
         Fixed n \<Rightarrow> nearestLength ?ks x = n
       | Discrete v vs \<Rightarrow>
           (\<forall>w \<in> set (v # vs).
              distance x (nearestLength ?ks x) \<le> distance x w
              \<and> (distance x w = distance x (nearestLength ?ks x)
                  \<longrightarrow> w \<le> nearestLength ?ks x))
       | Range lo hi \<Rightarrow> nearestLength ?ks x = max lo (min hi x))"
  proof (cases ?ks)
    case (Fixed n)
    then show ?thesis by simp
  next
    case (Discrete v vs)
    then show ?thesis using nearest_discrete [of x v vs] by simp
  next
    case (Range lo hi)
    with assms show ?thesis by auto
  qed
  have 4: "algorithm c = DES_EDE3 \<longrightarrow> nearestLength ?ks 10 = 24"
    by (simp add: keyLengths_def)
  from 1 2 3 4 show ?thesis
    unfolding validateKeyLength_def by (intro conjI)
qed

text \<open>
  The policy at AES (20 lies between 16 and 24 and goes to 24, 19 goes to 16), at
  DES-EDE3 and at Blowfish.
\<close>

theorem validateKeyLength_policy_witness:
  "wellFormed (keyLengths (\<lambda>a. Fixed 16) (algorithm defaultCipher))
   \<and> validateKeyLength (\<lambda>a. Fixed 16) 20 defaultCipher = 24
   \<and> validateKeyLength (\<lambda>a. Fixed 16) 19 defaultCipher = 16
   \<and> validateKeyLength (\<lambda>a. Fixed 16) 20 defaultCipher \<in> {16, 24, 32}
   \<and> validateKeyLength (\<lambda>a. Fixed 16) (validateKeyLength (\<lambda>a. Fixed 16) 19 defaultCipher)
         defaultCipher = validateKeyLength (\<lambda>a. Fixed 16) 19 defaultCipher
   \<and> algorithm (defaultCipher\<lparr>m_algorithmName := ''DES-EDE3''\<rparr>) = DES_EDE3
   \<and> validateKeyLength (\<lambda>a. Fixed 16) 10 (defaultCipher\<lparr>m_algorithmName := ''DES-EDE3''\<rparr>) = 24
   \<and> validateKeyLength (\<lambda>a. Fixed 16) 70 (defaultCipher\<lparr>m_algorithmName := ''blowfish''\<rparr>) = 56
   \<and> validateKeyLength (\<lambda>a. Fixed 16) 70 (defaultCipher\<lparr>m_algorithmName := ''blowfish''\<rparr>)
       \<in> {4..56}"
proof -
  let ?o = "\<lambda>a::Algorithm. Fixed 16"
  let ?des = "defaultCipher\<lparr>m_algorithmName := ''DES-EDE3''\<rparr>"
  let ?bf = "defaultCipher\<lparr>m_algorithmName := ''blowfish''\<rparr>"
  have aes: "algorithm defaultCipher = AES"
    by (simp add: algorithm_def defaultCipher_def AlgorithmNames_def compareCI_eq_def
        foldCase_def Algorithm_of_def)
  have des: "algorithm ?des = DES_EDE3"
    by (simp add: algorithm_def defaultCipher_def AlgorithmNames_def compareCI_eq_def
        foldCase_def Algorithm_of_def)
  have bf: "algorithm ?bf = Blowfish"
    by (simp add: algorithm_def defaultCipher_def AlgorithmNames_def compareCI_eq_def
        foldCase_def Algorithm_of_def)
  have w1: "wellFormed (keyLengths ?o (algorithm defaultCipher))"
    by (simp add: aes keyLengths_def)
  have w2: "wellFormed (keyLengths ?o (algorithm ?des))"
    by (simp add: des keyLengths_def)
  have w3: "wellFormed (keyLengths ?o (algorithm ?bf))"
    by (simp add: bf keyLengths_def)
  have v20: "validateKeyLength ?o 20 defaultCipher = 24"
    by (simp add: validateKeyLength_def aes keyLengths_def closer_def distance_def)
  have v19: "validateKeyLength ?o 19 defaultCipher = 16"
    by (simp add: validateKeyLength_def aes keyLengths_def closer_def distance_def)
  have v70: "validateKeyLength ?o 70 ?bf = 56"
    by (simp add: validateKeyLength_def bf keyLengths_def)
  have m20: "validateKeyLength ?o 20 defaultCipher \<in> {16, 24, 32}"
    using validateKeyLength_policy [OF w1, of 20] by (simp add: aes keyLengths_def)
  have i19: "validateKeyLength ?o (validateKeyLength ?o 19 defaultCipher) defaultCipher
      = validateKeyLength ?o 19 defaultCipher"
    using validateKeyLength_policy [OF w1, of 19] by simp
  have v10: "validateKeyLength ?o 10 ?des = 24"
    using validateKeyLength_policy [OF w2, of 10] des by simp
  have m70: "validateKeyLength ?o 70 ?bf \<in> {4..56}"
    using validateKeyLength_policy [OF w3, of 70] by (simp add: bf keyLengths_def)
  from w1 v20 v19 m20 i19 des v10 v70 m70 show ?thesis by simp
qed

lemma unknown_algorithm_after_clear:
  "\<not> containsCI AlgorithmNames s \<Longrightarrow> algorithm (setAlgorithmName s c) = UnknownAlgorithm"
  by (simp add: algorithm_def setAlgorithmName_def lookupCI_empty_AlgorithmNames)

text \<open>
  Claim C3. After \<open>setAlgorithmName\<close> with a string that matches no registry name,
  \<open>algorithmName()\<close> is empty and \<open>algorithm()\<close> is \<open>UnknownAlgorithm\<close>; and on a
  suite whose algorithm or operation resolves to the unknown value, \<open>encrypt\<close> and
  \<open>decrypt\<close> fail with \<open>ConfigurationError\<close>, produce nothing, leave the suite as it
  was and do no cryptographic work.
\<close>

theorem unrecognised_name_configuration_error:
  "(\<not> containsCI AlgorithmNames s \<longrightarrow>
      algorithmName (setAlgorithmName s c) = []
      \<and> algorithm (setAlgorithmName s c) = UnknownAlgorithm
      \<and> encrypt K plain (setAlgorithmName s c) =
          \<lparr>error = ConfigurationError, produced = None, suite = setAlgorithmName s c, work = []\<rparr>
      \<and> decrypt K crypt (setAlgorithmName s c) =
          \<lparr>error = ConfigurationError, produced = None, suite = setAlgorithmName s c, work = []\<rparr>)
   \<and> (algorithm d = UnknownAlgorithm \<or> operation d = UnknownOperation \<longrightarrow>
      encrypt K plain d =
          \<lparr>error = ConfigurationError, produced = None, suite = d, work = []\<rparr>
      \<and> decrypt K crypt d =
          \<lparr>error = ConfigurationError, produced = None, suite = d, work = []\<rparr>)"
proof -
  have unknown: "encrypt K plain d =
          \<lparr>error = ConfigurationError, produced = None, suite = d, work = []\<rparr>
      \<and> decrypt K crypt d =
          \<lparr>error = ConfigurationError, produced = None, suite = d, work = []\<rparr>"
    if "algorithm d = UnknownAlgorithm \<or> operation d = UnknownOperation" for d
    using that by (auto simp: encrypt_def decrypt_def Let_def)
  have name: "algorithmName (setAlgorithmName s c) = []" if "\<not> containsCI AlgorithmNames s"
    using that by (simp add: algorithmName_def setAlgorithmName_def)
  show ?thesis
    using unknown [of d] unknown [of "setAlgorithmName s c"] name
      unknown_algorithm_after_clear [of s c]
    by blast
qed

text \<open>The claim at \<open>not-a-cipher\<close>, and at a suite with an empty operation code.\<close>

theorem unrecognised_name_configuration_error_witness:
  "\<not> containsCI AlgorithmNames ''not-a-cipher''
   \<and> algorithmName (setAlgorithmName ''not-a-cipher'' defaultCipher) = []
   \<and> algorithm (setAlgorithmName ''not-a-cipher'' defaultCipher) = UnknownAlgorithm
   \<and> error (encrypt toyCollaborators [1, 2, 3] (setAlgorithmName ''not-a-cipher'' defaultCipher))
       = ConfigurationError
   \<and> work (encrypt toyCollaborators [1, 2, 3] (setAlgorithmName ''not-a-cipher'' defaultCipher))
       = []
   \<and> operation (defaultCipher\<lparr>m_operationCode := []\<rparr>) = UnknownOperation
   \<and> error (decrypt toyCollaborators [1, 2, 3] (defaultCipher\<lparr>m_operationCode := []\<rparr>))
       = ConfigurationError"
proof -
  let ?d = "defaultCipher\<lparr>m_operationCode := []\<rparr>"
  have n: "\<not> containsCI AlgorithmNames ''not-a-cipher''"
    by (simp add: AlgorithmNames_def compareCI_eq_def)
  have u: "operation ?d = UnknownOperation"
    by (simp add: operation_def lookupCI_empty_OperationCodes)
  note c3 = unrecognised_name_configuration_error [of "''not-a-cipher''" defaultCipher toyCollaborators "[1, 2, 3]" "[1, 2, 3]" ?d]
  from c3 n have 1: "algorithmName (setAlgorithmName ''not-a-cipher'' defaultCipher) = []"
    and 2: "algorithm (setAlgorithmName ''not-a-cipher'' defaultCipher) = UnknownAlgorithm"
    and 3: "encrypt toyCollaborators [1, 2, 3] (setAlgorithmName ''not-a-cipher'' defaultCipher) =
          \<lparr>error = ConfigurationError, produced = None,
           suite = setAlgorithmName ''not-a-cipher'' defaultCipher, work = []\<rparr>"
    by blast+
  from c3 u have 4: "decrypt toyCollaborators [1, 2, 3] ?d =
          \<lparr>error = ConfigurationError, produced = None, suite = ?d, work = []\<rparr>"
    by blast
  from n 1 2 3 4 u show ?thesis by simp
qed

lemma suite_encrypt_names:
  "m_algorithmName (suite (encrypt K plain c)) = m_algorithmName c
   \<and> m_operationCode (suite (encrypt K plain c)) = m_operationCode c"
  by (simp add: encrypt_def Let_def split: option.splits prod.splits)

text \<open>
  Claim C1. When \<open>encrypt\<close> succeeds on a plaintext, the suite is a supported pair, and
  \<open>decrypt\<close> of the produced ciphertext, with the same collaborators and the suite as
  \<open>encrypt\<close> left it (its initial vector and authentication value), succeeds and
  produces the plaintext. The primitives are assumed to invert each other.
\<close>

theorem encrypt_decrypt_round_trip:
  assumes inv: "primitivesInvert K"
    and ok: "error (encrypt K plain c) = NoError"
  shows "algorithm c \<noteq> UnknownAlgorithm \<and> operation c \<noteq> UnknownOperation
    \<and> (\<exists>crypt. produced (encrypt K plain c) = Some crypt
          \<and> error (decrypt K crypt (suite (encrypt K plain c))) = NoError
          \<and> produced (decrypt K crypt (suite (encrypt K plain c))) = Some plain)"
proof -
  let ?a = "algorithm c" and ?p = "operation c"
  let ?n = "validateKeyLength (otherKeyLengths K) (preferredKeyLength K) c"
  let ?iv = "randomBytes K (if ?p = ECB then 0 else ivLength K ?a ?p)"
  from ok have known: "?a \<noteq> UnknownAlgorithm \<and> ?p \<noteq> UnknownOperation"
    by (auto simp: encrypt_def Let_def)
  from ok known obtain key where key: "deriveKey K ?n = Some key"
    by (cases "deriveKey K ?n") (auto simp: encrypt_def Let_def)
  from ok known key obtain crypt tag where enc: "encipher K ?a ?p key ?iv plain = Some (crypt, tag)"
    by (cases "encipher K ?a ?p key ?iv plain") (auto simp: encrypt_def Let_def)
  let ?auth = "if isAuthenticated ?p then tag else mac K key ?iv crypt"
  let ?s = "c\<lparr>m_initialVector := ?iv, m_authentication := ?auth\<rparr>"
  have out: "produced (encrypt K plain c) = Some crypt"
    using known key enc by (simp add: encrypt_def Let_def)
  have st: "suite (encrypt K plain c) = ?s"
    using known key enc by (simp add: encrypt_def Let_def)
  have same: "algorithm ?s = ?a" "operation ?s = ?p"
    "validateKeyLength (otherKeyLengths K) (preferredKeyLength K) ?s = ?n"
    by (simp_all add: algorithm_def operation_def validateKeyLength_def)
  from inv enc have inverts:
    "if isAuthenticated ?p
     then decipherAuthenticated K ?a ?p key ?iv crypt tag = Inr plain
     else decipher K ?a ?p key ?iv crypt = Some plain"
    unfolding primitivesInvert_def by blast
  have dec: "error (decrypt K crypt ?s) = NoError \<and> produced (decrypt K crypt ?s) = Some plain"
  proof (cases "isAuthenticated ?p")
    case True
    with inverts known key same show ?thesis by (simp add: decrypt_def Let_def)
  next
    case False
    with inverts known key same show ?thesis by (simp add: decrypt_def Let_def)
  qed
  from known out st dec show ?thesis by simp
qed

text \<open>The round trip with the toy collaborators, for AES/GCM and for AES/CBC.\<close>

theorem encrypt_decrypt_round_trip_witness:
  "primitivesInvert toyCollaborators
   \<and> error (encrypt toyCollaborators [104, 105] defaultCipher) = NoError
   \<and> produced (encrypt toyCollaborators [104, 105] defaultCipher) = Some [146, 147]
   \<and> produced (decrypt toyCollaborators [146, 147]
        (suite (encrypt toyCollaborators [104, 105] defaultCipher))) = Some [104, 105]
   \<and> error (encrypt toyCollaborators [104, 105] (defaultCipher\<lparr>m_operationCode := ''CBC''\<rparr>)) = NoError
   \<and> produced (decrypt toyCollaborators [146, 147]
        (suite (encrypt toyCollaborators [104, 105] (defaultCipher\<lparr>m_operationCode := ''CBC''\<rparr>))))
       = Some [104, 105]"
proof -
  let ?cbc = "defaultCipher\<lparr>m_operationCode := ''CBC''\<rparr>"
  have inv: "primitivesInvert toyCollaborators"
    by (simp add: primitivesInvert_def toyCollaborators_def comp_def)
  have aes: "algorithm defaultCipher = AES" "algorithm ?cbc = AES"
    by (simp_all add: algorithm_def defaultCipher_def AlgorithmNames_def compareCI_eq_def
        foldCase_def Algorithm_of_def)
  have ops: "operation defaultCipher = GCM" "operation ?cbc = CBC"
    by (simp_all add: operation_def defaultCipher_def OperationCodes_def compareCI_eq_def
        foldCase_def Operation_of_def)
  have e1: "error (encrypt toyCollaborators [104, 105] defaultCipher) = NoError"
    by (simp add: encrypt_def Let_def aes ops toyCollaborators_def)
  have e2: "error (encrypt toyCollaborators [104, 105] ?cbc) = NoError"
    by (simp add: encrypt_def Let_def aes ops toyCollaborators_def isAuthenticated_def)
  have p1: "produced (encrypt toyCollaborators [104, 105] defaultCipher) = Some [146, 147]"
    by (simp add: encrypt_def Let_def aes ops toyCollaborators_def validateKeyLength_def
        keyLengths_def closer_def distance_def isAuthenticated_def)
  have p2: "produced (encrypt toyCollaborators [104, 105] ?cbc) = Some [146, 147]"
    by (simp add: encrypt_def Let_def aes ops toyCollaborators_def validateKeyLength_def
        keyLengths_def closer_def distance_def isAuthenticated_def)
  from encrypt_decrypt_round_trip [OF inv e1] p1 have r1: "produced (decrypt toyCollaborators [146, 147]
        (suite (encrypt toyCollaborators [104, 105] defaultCipher))) = Some [104, 105]"
    by simp
  from encrypt_decrypt_round_trip [OF inv e2] p2 have r2: "produced (decrypt toyCollaborators [146, 147]
        (suite (encrypt toyCollaborators [104, 105] ?cbc))) = Some [104, 105]"
    by simp
  from inv e1 p1 r1 e2 r2 show ?thesis by simp
qed

subsection \<open>Tampering\<close>








end
